theory Spec2Isabelle
  imports Complex_Main "HOL-Library.Char_ord" "HOL-Library.List_Lexorder"
begin

section \<open>Jet event display: hard-coded settings\<close>

text \<open>
  The globals at the head of \<^verbatim>\<open>main.cpp\<close>. They are initialised once and never assigned.
  C++ \<^verbatim>\<open>double\<close> values are modelled as reals: comparisons and sums are the exact ones.
  The colours are the values of ROOT's \<^verbatim>\<open>EColor\<close> enumeration
  (\<^verbatim>\<open>kBlack = 1\<close>, \<^verbatim>\<open>kRed = 632\<close>, \<^verbatim>\<open>kBlue = 600\<close>, \<^verbatim>\<open>kGreen = 416\<close>, \<^verbatim>\<open>kGray = 920\<close>).
\<close>

definition pTmin_jet :: real where "pTmin_jet = 25"
definition pTmin_hadron :: real where "pTmin_hadron = 1"
definition yMax :: real where "yMax = 4"
definition mu :: real where "mu = 60"

definition colHS :: int where "colHS = 1"
definition colPos :: int where "colPos = 632"
definition colNeg :: int where "colNeg = 600"
definition colNeut :: int where "colNeut = 416 + 3"
definition colPU :: int where "colPU = 920 + 1"

definition doAntik_t :: bool where "doAntik_t = True"
definition dok_t :: bool where "dok_t = True"
definition doCambridge_Aachen :: bool where "doCambridge_Aachen = False"
definition R :: real where "R = 0.4"

text \<open>\<^verbatim>\<open>std::to_string(R)\<close> prints a double with six decimals.\<close>

definition to_string_R :: string where "to_string_R = ''0.400000''"

section \<open>Particles, pseudo-jets and jets\<close>

text \<open>
  A generator particle, with the accessors that \<^verbatim>\<open>main\<close> reads. The rapidity and the
  azimuth are named \<open>p_y\<close> and \<open>p_phi\<close>.
\<close>

record Particle =
  isResonance :: bool
  status :: int
  isFinal :: bool
  p_y :: real
  p_phi :: real
  pT :: real
  charge :: real
  daughter1 :: int
  daughter2 :: int

type_synonym Event = "Particle list"

text \<open>
  A \<^verbatim>\<open>fastjet::PseudoJet\<close> is read by \<^verbatim>\<open>main\<close> through \<^verbatim>\<open>pt()\<close>, \<^verbatim>\<open>rap()\<close> and
  \<^verbatim>\<open>phi_std()\<close> only, so these three values are its fields here. A jet is a pseudo-jet
  with its list of constituents.
\<close>

record PseudoJet =
  pt :: real
  rap :: real
  phi_std :: real

record Jet = PseudoJet +
  constituents :: "PseudoJet list"

text \<open>\<^verbatim>\<open>fastjet::PseudoJet(p.px(), p.py(), p.pz(), p.e())\<close>: the pseudo-jet of a particle.\<close>

definition PseudoJet_of :: "Particle \<Rightarrow> PseudoJet" where
  "PseudoJet_of p = \<lparr>pt = pT p, rap = p_y p, phi_std = p_phi p\<rparr>"

text \<open>\<^verbatim>\<open>ghost.reset_momentum_PtYPhiM(pt, y, phi, 0)\<close>.\<close>

definition reset_momentum_PtYPhiM :: "real \<Rightarrow> real \<Rightarrow> real \<Rightarrow> PseudoJet" where
  "reset_momentum_PtYPhiM a b c = \<lparr>pt = a, rap = b, phi_std = c\<rparr>"

definition pTghost :: real where "pTghost = 1 / 10 ^ 100"

text \<open>
  The literal \<^verbatim>\<open>1e-50\<close> of the test in the flow loop: the exact value of that double,
  \<open>8424983333484575 / 2 ^ 219\<close>, which is slightly above \<open>1 / 10 ^ 50\<close>.
\<close>

definition ghost_cut :: real where "ghost_cut = 8424983333484575 / 2 ^ 219"

section \<open>Jet definitions and their map\<close>

datatype JetAlgorithm = kt_algorithm | cambridge_algorithm | antikt_algorithm
datatype RecombinationScheme = E_scheme
datatype Strategy = Best
datatype JetDefinition = JetDefinition JetAlgorithm real RecombinationScheme Strategy

text \<open>
  \<^verbatim>\<open>std::map<TString, fastjet::JetDefinition>\<close>: the entries are kept, and iterated, in
  ascending order of the keys. \<^verbatim>\<open>TString\<close> compares byte by byte, which is the
  lexicographic order of character lists. \<open>map_assign\<close> is \<^verbatim>\<open>m[k] = v\<close>.
\<close>

type_synonym jetDefs_map = "(string \<times> JetDefinition) list"

fun map_assign :: "string \<Rightarrow> JetDefinition \<Rightarrow> jetDefs_map \<Rightarrow> jetDefs_map" where
  "map_assign k v [] = [(k, v)]"
| "map_assign k v ((k', v') # m) =
     (if k < k' then (k, v) # (k', v') # m
      else if k = k' then (k, v) # m
      else (k', v') # map_assign k v m)"

definition label_antikt :: string where
  "label_antikt = ''Anti-#it{k_{t}} jets, #it{R} = '' @ to_string_R"
definition label_kt :: string where
  "label_kt = ''#it{k_{t}} jets, #it{R} = '' @ to_string_R"
definition label_ca :: string where
  "label_ca = ''Cambridge-Aachen jets,  #it{R} = 0.4''"

text \<open>The three guarded assignments of \<^verbatim>\<open>main\<close>, in their order.\<close>

definition jetDefs_of :: "bool \<Rightarrow> bool \<Rightarrow> bool \<Rightarrow> jetDefs_map" where
  "jetDefs_of a k c =
     (let m0 = [];
          m1 = (if a then map_assign label_antikt (JetDefinition antikt_algorithm R E_scheme Best) m0 else m0);
          m2 = (if k then map_assign label_kt (JetDefinition kt_algorithm R E_scheme Best) m1 else m1);
          m3 = (if c then map_assign label_ca (JetDefinition cambridge_algorithm R E_scheme Best) m2 else m2)
      in m3)"

definition jetDefs :: jetDefs_map where
  "jetDefs = jetDefs_of doAntik_t dok_t doCambridge_Aachen"

text \<open>The labels in the order in which the source configures (inserts) them.\<close>

definition configured_labels :: "bool \<Rightarrow> bool \<Rightarrow> bool \<Rightarrow> string list" where
  "configured_labels a k c =
     (if a then [label_antikt] else []) @ (if k then [label_kt] else []) @ (if c then [label_ca] else [])"

section \<open>The energy-flow histogram\<close>

text \<open>
  ROOT's \<^verbatim>\<open>TH2D\<close> with equidistant axes. A cell is the pair of its bin numbers; bin 0 is
  the underflow bin and bin \<open>Nbins + 1\<close> the overflow bin of an axis.
  \<^verbatim>\<open>TAxis::GetBinCenter\<close>, \<^verbatim>\<open>TAxis::FindBin\<close>, \<^verbatim>\<open>TH2::Fill(x, y, w)\<close> (which increments
  the cell of \<open>(x, y)\<close> by the weight \<open>w\<close>) and \<^verbatim>\<open>TH1::Reset\<close> follow the ROOT reference.
\<close>

record TAxis =
  Nbins :: nat
  Xmin :: real
  Xmax :: real

record TH2D =
  Xaxis :: TAxis
  Yaxis :: TAxis
  content :: "nat \<times> nat \<Rightarrow> real"

definition GetBinCenter :: "TAxis \<Rightarrow> nat \<Rightarrow> real" where
  "GetBinCenter a i = Xmin a + (real i - 1) * ((Xmax a - Xmin a) / real (Nbins a))
                        + (1 / 2) * ((Xmax a - Xmin a) / real (Nbins a))"

definition FindBin :: "TAxis \<Rightarrow> real \<Rightarrow> nat" where
  "FindBin a x =
     (if x < Xmin a then 0
      else if \<not> x < Xmax a then Nbins a + 1
      else 1 + nat \<lfloor>real (Nbins a) * (x - Xmin a) / (Xmax a - Xmin a)\<rfloor>)"

definition cell_of :: "TH2D \<Rightarrow> real \<Rightarrow> real \<Rightarrow> nat \<times> nat" where
  "cell_of h x y = (FindBin (Xaxis h) x, FindBin (Yaxis h) y)"

definition Fill :: "TH2D \<Rightarrow> real \<Rightarrow> real \<Rightarrow> real \<Rightarrow> TH2D" where
  "Fill h x y w = h\<lparr>content := (content h)(cell_of h x y := content h (cell_of h x y) + w)\<rparr>"

definition Reset :: "TH2D \<Rightarrow> TH2D" where
  "Reset h = h\<lparr>content := (\<lambda>b. 0)\<rparr>"

text \<open>\<^verbatim>\<open>new TH2D("", ..., NyBins, -yMax, yMax, NphiBins, -phiMax, phiMax)\<close>.\<close>

definition new_TH2D :: "nat \<Rightarrow> real \<Rightarrow> real \<Rightarrow> nat \<Rightarrow> real \<Rightarrow> real \<Rightarrow> TH2D" where
  "new_TH2D nx xlo xhi ny ylo yhi =
     \<lparr>Xaxis = \<lparr>Nbins = nx, Xmin = xlo, Xmax = xhi\<rparr>,
      Yaxis = \<lparr>Nbins = ny, Xmin = ylo, Xmax = yhi\<rparr>,
      content = (\<lambda>b. 0)\<rparr>"

text \<open>The histogram of \<^verbatim>\<open>main\<close>: \<^verbatim>\<open>NyBins = 400/2\<close>, \<^verbatim>\<open>NphiBins = 314/2\<close> (integer division).\<close>

definition NyBins :: nat where "NyBins = 400 div 2"
definition NphiBins :: nat where "NphiBins = 314 div 2"
definition phiMax :: real where "phiMax = pi"

definition pTflow0 :: TH2D where
  "pTflow0 = new_TH2D NyBins (- yMax) yMax NphiBins (- phiMax) phiMax"

section \<open>The steps of one event\<close>

text \<open>The particle loop: the resonances with status -62, and the final particles.\<close>

definition VH_of :: "Event \<Rightarrow> Particle list" where
  "VH_of event = filter (\<lambda>p. isResonance p \<and> status p = - 62) event"

definition ptcls_hs_of :: "Event \<Rightarrow> Particle list" where
  "ptcls_hs_of event = filter isFinal event"

text \<open>
  The ghost loop: for \<open>iy = 1 .. NyBins\<close>, for \<open>iphi = 1 .. NphiBins\<close>, one ghost at the
  centre of bin \<open>(iy, iphi)\<close>. The bounds are the bin counts the histogram was built with.
\<close>

definition ghosts_of :: "TH2D \<Rightarrow> PseudoJet list" where
  "ghosts_of h =
     concat (map (\<lambda>iy.
        map (\<lambda>iphi. reset_momentum_PtYPhiM pTghost
                        (GetBinCenter (Xaxis h) iy) (GetBinCenter (Yaxis h) iphi))
            [1 ..< Suc (Nbins (Yaxis h))])
        [1 ..< Suc (Nbins (Xaxis h))])"

text \<open>
  The pileup loop. \<open>next_pu k\<close> is the outcome of call number \<open>k\<close> of
  \<^verbatim>\<open>pythiaPU.next()\<close>: \<open>None\<close> when it returns false, the event record otherwise. The
  loop state is the number of calls made so far, \<^verbatim>\<open>stbl_ptcls\<close> and \<^verbatim>\<open>ptcls_pu\<close>.
\<close>

fun pileup_loop :: "(nat \<Rightarrow> Event option) \<Rightarrow> nat \<Rightarrow> nat \<times> PseudoJet list \<times> Particle list
                      \<Rightarrow> nat \<times> PseudoJet list \<times> Particle list" where
  "pileup_loop next_pu 0 s = s"
| "pileup_loop next_pu (Suc n) (calls, stbl_ptcls, ptcls_pu) =
     (case next_pu calls of
        None \<Rightarrow> pileup_loop next_pu n (Suc calls, stbl_ptcls, ptcls_pu)
      | Some ev \<Rightarrow> pileup_loop next_pu n
          (Suc calls, stbl_ptcls @ map PseudoJet_of (filter isFinal ev),
           ptcls_pu @ filter isFinal ev))"

text \<open>The flow loop: for each jet, for each constituent.\<close>

fun fill_constituents :: "TH2D \<Rightarrow> real \<Rightarrow> PseudoJet list \<Rightarrow> TH2D" where
  "fill_constituents h jet_pt [] = h"
| "fill_constituents h jet_pt (c # cs) =
     (if pt c > ghost_cut then fill_constituents h jet_pt cs
      else fill_constituents (Fill h (rap c) (phi_std c) jet_pt) jet_pt cs)"

fun fill_jets :: "TH2D \<Rightarrow> Jet list \<Rightarrow> TH2D" where
  "fill_jets h [] = h"
| "fill_jets h (jet # jets) = fill_jets (fill_constituents h (pt jet) (constituents jet)) jets"

definition fill_pTflow :: "TH2D \<Rightarrow> Jet list \<Rightarrow> TH2D" where
  "fill_pTflow h jets = fill_jets (Reset h) jets"

section \<open>Drawing\<close>

text \<open>
  The draw calls issued for a page. \<open>Text\<close> carries the alignment argument when the call
  gives one.
\<close>

datatype DrawCall =
    ParticleMarker Particle int int real
  | ParticleText "Particle option" int
  | Text real real string "int option"
  | LegendBox real real real real
  | Marker real real int int real

text \<open>
  Modelled from the spec: \<^verbatim>\<open>drawParticleMarker\<close>, \<^verbatim>\<open>drawParticleText\<close>, \<^verbatim>\<open>drawText\<close>,
  \<^verbatim>\<open>drawLegendBox\<close> and \<^verbatim>\<open>drawMarker\<close> are declared in \<^verbatim>\<open>drawF.h\<close>, which is missing.
  Each is one call of a renderer primitive (\<^verbatim>\<open>draw_marker(position, style, color, size)\<close>,
  \<^verbatim>\<open>draw_text(position, string, alignment)\<close>), recorded with its arguments.
\<close>

definition drawParticleMarker :: "Particle \<Rightarrow> int \<Rightarrow> int \<Rightarrow> real \<Rightarrow> DrawCall list" where
  "drawParticleMarker p style col sz = [ParticleMarker p style col sz]"

definition drawParticleText :: "Particle option \<Rightarrow> int \<Rightarrow> DrawCall list" where
  "drawParticleText p col = [ParticleText p col]"

text \<open>The pileup markers.\<close>

fun draw_ptcls_pu :: "Particle list \<Rightarrow> DrawCall list" where
  "draw_ptcls_pu [] = []"
| "draw_ptcls_pu (p # ps) =
     (if \<bar>p_y p\<bar> < yMax \<and> pT p > pTmin_hadron
      then drawParticleMarker p (if charge p \<noteq> 0 then 24 else 25) colPU 0.4
      else []) @ draw_ptcls_pu ps"

text \<open>The markers of the stable particles of the hard scatter.\<close>

fun draw_ptcls_hs :: "Particle list \<Rightarrow> DrawCall list" where
  "draw_ptcls_hs [] = []"
| "draw_ptcls_hs (p # ps) =
     (if \<bar>p_y p\<bar> < yMax \<and> pT p > pTmin_hadron
      then (if charge p > 0 then drawParticleMarker p 5 colPos 0.8
            else if charge p < 0 then drawParticleMarker p 5 colNeg 0.8
            else drawParticleMarker p 21 colNeut 0.4 @ drawParticleMarker p 5 colNeut 0.8)
      else []) @ draw_ptcls_hs ps"

text \<open>
  The labels of W and H and of their daughters. The generator keeps the daughters of a
  resonance inside the event record, and for such indices \<open>event_at\<close> is the entry that
  \<^verbatim>\<open>pythia.event[i]\<close> reads. The source does not check the index; outside the record its
  behaviour is undefined, which \<open>None\<close> only marks: nothing is claimed about such an event.
\<close>

definition event_at :: "Event \<Rightarrow> int \<Rightarrow> Particle option" where
  "event_at event i = (if 0 \<le> i \<and> nat i < length event then Some (event ! nat i) else None)"

fun draw_VH :: "Event \<Rightarrow> Particle list \<Rightarrow> DrawCall list" where
  "draw_VH event [] = []"
| "draw_VH event (p # ps) =
     drawParticleText (Some p) colHS
     @ drawParticleText (event_at event (daughter1 p)) colHS
     @ drawParticleText (event_at event (daughter2 p)) colHS
     @ draw_VH event ps"

definition desc :: string where
  "desc = ''#it{pp} #rightarrow #it{WH} #rightarrow #it{q#bar{q}b#bar{b}},  #sqrt{#it{s}} = 13.6 TeV''"

text \<open>The two title texts; \<^verbatim>\<open>x = 0.06\<close>, \<^verbatim>\<open>y = 0.96\<close>, and \<^verbatim>\<open>Form("%.0f", pTmin_jet)\<close> is \<open>25\<close>.\<close>

definition draw_titles :: "string \<Rightarrow> DrawCall list" where
  "draw_titles label =
     [Text 0.06 0.96 desc None,
      Text 0.87 0.96 (label @ '', #it{p}_{T} > 25 GeV'') (Some 31)]"

text \<open>The body of \<^verbatim>\<open>if (first) { ... }\<close>: the legend box, its texts and its markers.\<close>

definition draw_legend :: "DrawCall list" where
  "draw_legend =
     [LegendBox 0.66 0.67 0.85 0.925,
      Text 0.715 0.90 ''Hard scatter'' (Some 12),
      Marker 0.68 0.90 20 colHS 0.8,
      Marker 0.7 0.90 29 colHS 1.2,
      Text 0.675 0.85 ''Stable particles'' (Some 12),
      Text 0.675 0.824 ''   +    #bf{#minus}    #scale[0.9]{neutral}'' (Some 12),
      Marker 0.683 0.82 5 colPos 0.8,
      Marker 0.717 0.82 5 colNeg 0.8,
      Marker 0.75 0.82 21 colNeut 0.4,
      Marker 0.75 0.82 5 colNeut 0.8,
      Text 0.675 0.775 ''Pileup  #it{#mu} = 60'' (Some 12),
      Text 0.675 0.745 ''   #pm    #scale[0.9]{neutral}'' (Some 12),
      Marker 0.683 0.74 24 colPU 0.4,
      Marker 0.717 0.74 25 colPU 0.4,
      Text 0.70 0.70 ''#scale[0.8]{#it{p}_{T}^{ptcl} > 1.0 GeV}'' (Some 12)]"

section \<open>The algorithm loop and the event loop\<close>

text \<open>
  What the program does outside itself, as parameters: the outcome of call \<open>k\<close> of
  \<^verbatim>\<open>pythia.next()\<close> and of \<^verbatim>\<open>pythiaPU.next()\<close>, the value of draw \<open>k\<close> of
  \<^verbatim>\<open>gRandom->Poisson(mu)\<close>, and the clustering
  \<^verbatim>\<open>sorted_by_pt(ClusterSequence(particles, def).inclusive_jets(pTmin_jet))\<close>.
\<close>

record Env =
  pythia_next :: "nat \<Rightarrow> Event option"
  pythiaPU_next :: "nat \<Rightarrow> Event option"
  Poisson :: "nat \<Rightarrow> int"
  inclusive_jets :: "PseudoJet list \<Rightarrow> JetDefinition \<Rightarrow> Jet list"

text \<open>
  One page of the document (\<^verbatim>\<open>can->Print(pdf)\<close>), with what produced it: the event number,
  the map entry, the particles given to the clustering, the jets, the histogram drawn, and
  the draw calls in their order: markers, resonance labels, titles, legend.
  The range of the colour axis (\<^verbatim>\<open>SetRangeUser\<close>) and the canvas settings change how the
  histogram is shown, not its cells, and are not part of the record.
\<close>

record Page =
  page_event :: nat
  page_label :: string
  page_jetDef :: JetDefinition
  page_input :: "PseudoJet list"
  page_jets :: "Jet list"
  page_flow :: TH2D
  page_markers :: "DrawCall list"
  page_VH :: "DrawCall list"
  page_titles :: "DrawCall list"
  page_legend :: "DrawCall list"

text \<open>What is fixed during the algorithm loop of one event.\<close>

record EventData =
  iEvent :: nat
  event :: Event
  VH :: "Particle list"
  ptcls_hs :: "Particle list"
  ptcls_pu :: "Particle list"

text \<open>
  \<^verbatim>\<open>for (auto jetDef : jetDefs)\<close>. The loop state is the histogram, \<^verbatim>\<open>stbl_ptcls\<close> and
  the flag \<^verbatim>\<open>first\<close>.
\<close>

fun algo_loop :: "Env \<Rightarrow> EventData \<Rightarrow> TH2D \<Rightarrow> PseudoJet list \<Rightarrow> bool \<Rightarrow> jetDefs_map
                    \<Rightarrow> TH2D \<times> Page list" where
  "algo_loop env d h stbl_ptcls first [] = (h, [])"
| "algo_loop env d h stbl_ptcls first (jetDef # rest) =
     (let jets = inclusive_jets env stbl_ptcls (snd jetDef);
          h' = fill_pTflow h jets;
          page = \<lparr>page_event = iEvent d,
                  page_label = fst jetDef,
                  page_jetDef = snd jetDef,
                  page_input = stbl_ptcls,
                  page_jets = jets,
                  page_flow = h',
                  page_markers = draw_ptcls_pu (ptcls_pu d) @ draw_ptcls_hs (ptcls_hs d),
                  page_VH = draw_VH (event d) (VH d),
                  page_titles = draw_titles (fst jetDef),
                  page_legend = (if first then draw_legend else [])\<rparr>;
          r = algo_loop env d h' stbl_ptcls False rest
      in (fst r, page # snd r))"

text \<open>
  The state that lives across events: the histogram, and how many calls of
  \<^verbatim>\<open>pythiaPU.next()\<close> and of \<^verbatim>\<open>Poisson\<close> were made.
\<close>

record State =
  pTflow :: TH2D
  pu_calls :: nat
  rng_calls :: nat

text \<open>The body of the event loop, for event number \<open>i\<close>.\<close>

definition process_event :: "Env \<Rightarrow> jetDefs_map \<Rightarrow> State \<Rightarrow> nat \<Rightarrow> State \<times> Page list" where
  "process_event env defs st i =
     (case pythia_next env i of
        None \<Rightarrow> (st, [])
      | Some ev \<Rightarrow>
          if length (VH_of ev) \<noteq> 2 then (st, [])
          else
            (let stbl0 = map PseudoJet_of (ptcls_hs_of ev) @ ghosts_of (pTflow st);
                 n_inel = Poisson env (rng_calls st);
                 pu = pileup_loop (pythiaPU_next env) (nat n_inel) (pu_calls st, stbl0, []);
                 d = \<lparr>iEvent = i, event = ev, VH = VH_of ev,
                      ptcls_hs = ptcls_hs_of ev, ptcls_pu = snd (snd pu)\<rparr>;
                 r = algo_loop env d (pTflow st) (fst (snd pu)) True defs
             in (\<lparr>pTflow = fst r, pu_calls = fst pu, rng_calls = Suc (rng_calls st)\<rparr>, snd r)))"

fun event_loop :: "Env \<Rightarrow> jetDefs_map \<Rightarrow> State \<Rightarrow> nat list \<Rightarrow> State \<times> Page list" where
  "event_loop env defs st [] = (st, [])"
| "event_loop env defs st (i # is) =
     (let r = process_event env defs st i;
          r' = event_loop env defs (fst r) is
      in (fst r', snd r @ snd r'))"

definition run :: "Env \<Rightarrow> jetDefs_map \<Rightarrow> TH2D \<Rightarrow> int \<Rightarrow> Page list" where
  "run env defs h nEvent =
     snd (event_loop env defs \<lparr>pTflow = h, pu_calls = 0, rng_calls = 0\<rparr> [0 ..< nat nEvent])"

text \<open>\<^verbatim>\<open>main\<close>, for \<^verbatim>\<open>nEvent = pythia.mode("Main:numberOfEvents")\<close>: the pages printed.\<close>

definition main :: "Env \<Rightarrow> int \<Rightarrow> Page list" where
  "main env nEvent = run env jetDefs pTflow0 nEvent"

section \<open>Notions used to state the properties\<close>

text \<open>
  The pileup events that calls \<open>calls, ..., calls + n - 1\<close> of \<^verbatim>\<open>pythiaPU.next()\<close>
  produce, in call order; the number of those calls that fail; and the final particles
  of the events produced.
\<close>

definition pileup_events :: "(nat \<Rightarrow> Event option) \<Rightarrow> nat \<Rightarrow> nat \<Rightarrow> Event list" where
  "pileup_events next_pu calls n =
     concat (map (\<lambda>j. case next_pu j of None \<Rightarrow> [] | Some ev \<Rightarrow> [ev]) [calls ..< calls + n])"

definition pileup_failures :: "(nat \<Rightarrow> Event option) \<Rightarrow> nat \<Rightarrow> nat \<Rightarrow> nat" where
  "pileup_failures next_pu calls n = length (filter (\<lambda>j. next_pu j = None) [calls ..< calls + n])"

definition pileup_finals :: "(nat \<Rightarrow> Event option) \<Rightarrow> nat \<Rightarrow> nat \<Rightarrow> Particle list" where
  "pileup_finals next_pu calls n = concat (map (filter isFinal) (pileup_events next_pu calls n))"

text \<open>An axis has at least one bin and a non-empty range.\<close>

definition valid_axis :: "TAxis \<Rightarrow> bool" where
  "valid_axis a = (0 < Nbins a \<and> Xmin a < Xmax a)"

text \<open>
  A constituent passes the test of the flow loop and lies in cell \<open>b\<close>; the pairs
  (jet pT, constituent) in iteration order; the weights deposited into cell \<open>b\<close>, in order.
\<close>

definition ghost_like :: "TH2D \<Rightarrow> nat \<times> nat \<Rightarrow> PseudoJet \<Rightarrow> bool" where
  "ghost_like h b c = (pt c \<le> ghost_cut \<and> cell_of h (rap c) (phi_std c) = b)"

definition jet_pairs :: "Jet list \<Rightarrow> (real \<times> PseudoJet) list" where
  "jet_pairs jets = concat (map (\<lambda>jet. map (Pair (pt jet)) (constituents jet)) jets)"

definition deposits :: "TH2D \<Rightarrow> Jet list \<Rightarrow> nat \<times> nat \<Rightarrow> real list" where
  "deposits h jets b = map fst (filter (\<lambda>jc. ghost_like h b (snd jc)) (jet_pairs jets))"

text \<open>
  Every ghost probe of the histogram occurs at most once among the constituents of all jets;
  every constituent that is not a ghost probe has a pT above the cut; the pT of the jets
  that have a ghost probe of cell \<open>b\<close> among their constituents, in iteration order.
\<close>

definition ghost_owned_once :: "TH2D \<Rightarrow> Jet list \<Rightarrow> bool" where
  "ghost_owned_once h jets =
     list_all (\<lambda>g. count_list (concat (map constituents jets)) g \<le> 1) (ghosts_of h)"

definition real_above_cut :: "TH2D \<Rightarrow> Jet list \<Rightarrow> bool" where
  "real_above_cut h jets =
     list_all (\<lambda>c. c \<in> set (ghosts_of h) \<or> pt c > ghost_cut) (concat (map constituents jets))"

definition ghost_owners :: "TH2D \<Rightarrow> Jet list \<Rightarrow> nat \<times> nat \<Rightarrow> real list" where
  "ghost_owners h jets b =
     map fst (filter (\<lambda>jc. snd jc \<in> set (ghosts_of h) \<and> cell_of h (rap (snd jc)) (phi_std (snd jc)) = b)
                     (jet_pairs jets))"

text \<open>
  Inputs for examples: a histogram of 4 by 4 cells and a jet of pT 50 that owns three of
  its ghosts and one particle; a jet that holds a particle of pT \<open>1e-60\<close>; two jets that
  both hold the ghost probe of bin (101, 79) of the histogram of \<^verbatim>\<open>main\<close>.
\<close>

definition h4 :: TH2D where "h4 = new_TH2D 4 (- 4) 4 4 (- 2) 2"

definition jet50 :: Jet where
  "jet50 = \<lparr>pt = 50, rap = - 2, phi_std = - 1,
     constituents = [reset_momentum_PtYPhiM pTghost (- 3) (- 3 / 2),
                     reset_momentum_PtYPhiM pTghost (- 3) (- 1 / 2),
                     reset_momentum_PtYPhiM pTghost (- 1) (- 3 / 2),
                     \<lparr>pt = 50, rap = - 2, phi_std = - 1\<rparr>]\<rparr>"

definition soft_particle :: Particle where
  "soft_particle = \<lparr>isResonance = False, status = 1, isFinal = True, p_y = 1 / 2, p_phi = 1,
     pT = 1 / 10 ^ 60, charge = 0, daughter1 = 0, daughter2 = 0\<rparr>"

definition hard_particle :: Particle where
  "hard_particle = \<lparr>isResonance = False, status = 1, isFinal = True, p_y = 0, p_phi = 0,
     pT = 30, charge = 1, daughter1 = 0, daughter2 = 0\<rparr>"

definition jet_soft :: Jet where
  "jet_soft = \<lparr>pt = 30, rap = 0, phi_std = 0,
     constituents = [PseudoJet_of hard_particle, PseudoJet_of soft_particle]\<rparr>"

definition ghost0 :: PseudoJet where
  "ghost0 = reset_momentum_PtYPhiM pTghost 0.02 0"

definition jetA :: Jet where
  "jetA = \<lparr>pt = 30, rap = 0, phi_std = 0, constituents = [ghost0]\<rparr>"

definition jetB :: Jet where
  "jetB = \<lparr>pt = 40, rap = 0, phi_std = 0, constituents = [ghost0]\<rparr>"

text \<open>
  A page is identified by its event number and its label. \<open>stbl_ptcls_of\<close> is the content
  of \<^verbatim>\<open>stbl_ptcls\<close> after the particle loop, the ghost loop and the pileup loop of an event.
\<close>

definition page_key :: "Page \<Rightarrow> nat \<times> string" where
  "page_key p = (page_event p, page_label p)"

definition stbl_ptcls_of :: "Env \<Rightarrow> State \<Rightarrow> Event \<Rightarrow> PseudoJet list" where
  "stbl_ptcls_of env st ev =
     map PseudoJet_of (filter isFinal ev) @ ghosts_of (pTflow st)
     @ map PseudoJet_of
         (pileup_finals (pythiaPU_next env) (pu_calls st) (nat (Poisson env (rng_calls st))))"

text \<open>
  Inputs for examples: two resonances with status -62, a neutral final particle, an event
  with both resonances and one with a single resonance, and a world in which three pileup
  interactions are drawn for every event, the second call of the pileup source fails, and
  the clustering returns one jet holding all particles.
\<close>

definition W_boson :: Particle where
  "W_boson = \<lparr>isResonance = True, status = - 62, isFinal = False, p_y = 1 / 2, p_phi = 1,
     pT = 120, charge = 1, daughter1 = 2, daughter2 = 3\<rparr>"

definition H_boson :: Particle where
  "H_boson = \<lparr>isResonance = True, status = - 62, isFinal = False, p_y = - 1 / 2, p_phi = - 2,
     pT = 120, charge = 0, daughter1 = 2, daughter2 = 3\<rparr>"

definition neutral_particle :: Particle where
  "neutral_particle = \<lparr>isResonance = False, status = 1, isFinal = True, p_y = 1, p_phi = 2,
     pT = 5, charge = 0, daughter1 = 0, daughter2 = 0\<rparr>"

definition ev_WH :: Event where
  "ev_WH = [W_boson, H_boson, hard_particle, neutral_particle]"

definition ev_W :: Event where
  "ev_W = [W_boson, hard_particle]"

definition env2 :: Env where
  "env2 = \<lparr>pythia_next = (\<lambda>k. Some ev_WH),
            pythiaPU_next = (\<lambda>k. if k = 1 then None else Some [hard_particle, W_boson]),
            Poisson = (\<lambda>k. 3),
            inclusive_jets = (\<lambda>ps jd. [\<lparr>pt = 30, rap = 0, phi_std = 0, constituents = ps\<rparr>])\<rparr>"

definition env1 :: Env where
  "env1 = env2\<lparr>pythia_next := (\<lambda>k. if k = 0 then Some ev_W else Some ev_WH)\<rparr>"

definition st0 :: State where
  "st0 = \<lparr>pTflow = pTflow0, pu_calls = 0, rng_calls = 0\<rparr>"

text \<open>Event \<open>i\<close> is produced and has exactly two resonances.\<close>

definition valid_event :: "Env \<Rightarrow> nat \<Rightarrow> bool" where
  "valid_event env i = (case pythia_next env i of None \<Rightarrow> False | Some ev \<Rightarrow> length (VH_of ev) = 2)"

definition pages0 :: "Page list" where
  "pages0 = snd (process_event env2 jetDefs st0 0)"

text \<open>
  A particle passes the rapidity and pT cuts of the marker loops; the marker of a pileup
  particle and the markers of a hard-scatter particle, as functions of the sign of the
  charge.
\<close>

definition qualifies :: "Particle \<Rightarrow> bool" where
  "qualifies p = (\<bar>p_y p\<bar> < yMax \<and> pT p > pTmin_hadron)"

definition pu_markers :: "Particle \<Rightarrow> DrawCall list" where
  "pu_markers p = [ParticleMarker p (if sgn (charge p) = 0 then 25 else 24) colPU 0.4]"

definition hs_markers :: "Particle \<Rightarrow> DrawCall list" where
  "hs_markers p =
     (if sgn (charge p) = 1 then [ParticleMarker p 5 colPos 0.8]
      else if sgn (charge p) = - 1 then [ParticleMarker p 5 colNeg 0.8]
      else [ParticleMarker p 21 colNeut 0.4, ParticleMarker p 5 colNeut 0.8])"

text \<open>
  The ghost grid builder in the words of the specification, to compare the ghost loop
  with: given the bin counts and the axis ranges, one probe per grid-cell centre, rapidity
  bins outermost, each with the fixed pT \<open>1e-100\<close>.
\<close>

definition GhostGridBuilder :: "nat \<Rightarrow> real \<Rightarrow> real \<Rightarrow> nat \<Rightarrow> real \<Rightarrow> real \<Rightarrow> PseudoJet list" where
  "GhostGridBuilder ny ylo yhi nphi philo phihi =
     concat (map (\<lambda>i. map (\<lambda>j.
        \<lparr>pt = pTghost,
         rap = ylo + (real i + 1 / 2) * ((yhi - ylo) / real ny),
         phi_std = philo + (real j + 1 / 2) * ((phihi - philo) / real nphi)\<rparr>) [0 ..< nphi]) [0 ..< ny])"

section \<open>Properties\<close>

subsection \<open>The pileup loop\<close>

lemma upt_shift: "[k ..< k + Suc n] = k # [Suc k ..< Suc k + n]"
  by (simp add: upt_conv_Cons del: upt_Suc)

lemma pileup_events_Suc:
  "pileup_events f k (Suc n) = (case f k of None \<Rightarrow> [] | Some ev \<Rightarrow> [ev]) @ pileup_events f (Suc k) n"
  unfolding pileup_events_def upt_shift by simp

lemma pileup_loop_eq:
  "pileup_loop f n (k, stbl, pu) =
     (k + n, stbl @ map PseudoJet_of (pileup_finals f k n), pu @ pileup_finals f k n)"
proof (induction n arbitrary: k stbl pu)
  case 0
  then show ?case by (simp add: pileup_finals_def pileup_events_def)
next
  case (Suc n)
  show ?case
  proof (cases "f k")
    case None
    then show ?thesis using Suc.IH [of "Suc k" stbl pu]
      by (simp add: pileup_finals_def pileup_events_Suc)
  next
    case (Some ev)
    then show ?thesis
      using Suc.IH [of "Suc k" "stbl @ map PseudoJet_of (filter isFinal ev)" "pu @ filter isFinal ev"]
      by (simp add: pileup_finals_def pileup_events_Suc)
  qed
qed

lemma pileup_events_length:
  "length (pileup_events f k n) + pileup_failures f k n = n"
proof (induction n arbitrary: k)
  case 0
  then show ?case by (simp add: pileup_events_def pileup_failures_def)
next
  case (Suc n)
  have "pileup_failures f k (Suc n) = (if f k = None then 1 else 0) + pileup_failures f (Suc k) n"
    unfolding pileup_failures_def upt_shift by simp
  then show ?case using Suc.IH [of "Suc k"]
    by (cases "f k") (simp_all add: pileup_events_Suc)
qed

text \<open>
  Claim C6. When \<open>n\<close> pileup interactions are drawn, every one of the \<open>n\<close> calls of the
  pileup source is made; a call that fails adds no particle; the pileup particles are
  exactly the final particles of the events that the successful calls produced, in call
  order, and there are \<open>n\<close> minus the number of failures of those. The loop always returns.
\<close>

theorem pileup_failed_draws_skipped:
  "pileup_loop next_pu n (calls, stbl, []) =
     (calls + n,
      stbl @ map PseudoJet_of (concat (map (filter isFinal) (pileup_events next_pu calls n))),
      concat (map (filter isFinal) (pileup_events next_pu calls n)))
   \<and> length (pileup_events next_pu calls n) = n - pileup_failures next_pu calls n"
  using pileup_loop_eq [of next_pu n calls stbl "[]"] pileup_events_length [of next_pu calls n]
  by (simp add: pileup_finals_def)

subsection \<open>The flow loop\<close>

lemma Fill_axes [simp]: "Xaxis (Fill h x y w) = Xaxis h" "Yaxis (Fill h x y w) = Yaxis h"
  by (simp_all add: Fill_def)

lemma Reset_axes [simp]: "Xaxis (Reset h) = Xaxis h" "Yaxis (Reset h) = Yaxis h"
  by (simp_all add: Reset_def)

lemma cell_of_cong: "Xaxis h = Xaxis h' \<Longrightarrow> Yaxis h = Yaxis h' \<Longrightarrow> cell_of h = cell_of h'"
  by (simp add: cell_of_def fun_eq_iff)

lemma Fill_content:
  "content (Fill h x y w) b = content h b + (if cell_of h x y = b then w else 0)"
  by (simp add: Fill_def)

lemma fill_constituents_axes [simp]:
  "Xaxis (fill_constituents h jp cs) = Xaxis h" "Yaxis (fill_constituents h jp cs) = Yaxis h"
  by (induction cs arbitrary: h) simp_all

lemma fill_constituents_content:
  "content (fill_constituents h jp cs) b
     = content h b + sum_list (map (\<lambda>c. jp) (filter (ghost_like h b) cs))"
proof (induction cs arbitrary: h)
  case Nil
  then show ?case by simp
next
  case (Cons c cs)
  have eq: "ghost_like (Fill h (rap c) (phi_std c) jp) b = ghost_like h b"
    by (simp add: ghost_like_def fun_eq_iff cell_of_def)
  show ?case
  proof (cases "pt c > ghost_cut")
    case True
    then show ?thesis using Cons.IH [of h] by (simp add: ghost_like_def)
  next
    case False
    then show ?thesis
      using Cons.IH [of "Fill h (rap c) (phi_std c) jp"]
      by (simp add: eq Fill_content) (simp add: ghost_like_def)
  qed
qed

lemma fill_jets_axes [simp]:
  "Xaxis (fill_jets h jets) = Xaxis h" "Yaxis (fill_jets h jets) = Yaxis h"
  by (induction jets arbitrary: h) simp_all

lemma fill_pTflow_axes [simp]:
  "Xaxis (fill_pTflow h jets) = Xaxis h" "Yaxis (fill_pTflow h jets) = Yaxis h"
  by (simp_all add: fill_pTflow_def)

lemma deposits_Cons:
  "deposits h (jet # jets) b
     = map (\<lambda>c. pt jet) (filter (ghost_like h b) (constituents jet)) @ deposits h jets b"
  by (simp add: deposits_def jet_pairs_def filter_map comp_def)

lemma ghost_like_cong:
  "Xaxis h = Xaxis h' \<Longrightarrow> Yaxis h = Yaxis h' \<Longrightarrow> ghost_like h = ghost_like h'"
  by (simp add: ghost_like_def fun_eq_iff cell_of_def)

lemma deposits_cong:
  "Xaxis h = Xaxis h' \<Longrightarrow> Yaxis h = Yaxis h' \<Longrightarrow> deposits h = deposits h'"
  by (simp add: deposits_def fun_eq_iff ghost_like_cong [of h h'])

lemma fill_jets_content:
  "content (fill_jets h jets) b = content h b + sum_list (deposits h jets b)"
proof (induction jets arbitrary: h)
  case Nil
  then show ?case by (simp add: deposits_def jet_pairs_def)
next
  case (Cons jet jets)
  let ?h = "fill_constituents h (pt jet) (constituents jet)"
  have "deposits ?h = deposits h" by (rule deposits_cong) simp_all
  then show ?case
    using Cons.IH [of ?h] by (simp add: fill_constituents_content deposits_Cons)
qed

lemma fill_pTflow_content:
  "content (fill_pTflow h jets) b = sum_list (deposits h jets b)"
proof -
  have "deposits (Reset h) = deposits h" by (rule deposits_cong) simp_all
  then show ?thesis by (simp add: fill_pTflow_def fill_jets_content) (simp add: Reset_def)
qed

lemma FindBin_GetBinCenter:
  assumes "valid_axis a" "1 \<le> i" "i \<le> Nbins a"
  shows "FindBin a (GetBinCenter a i) = i"
proof -
  define w where "w = (Xmax a - Xmin a) / real (Nbins a)"
  have N: "0 < real (Nbins a)" and D: "0 < Xmax a - Xmin a"
    using assms by (simp_all add: valid_axis_def)
  have w: "0 < w" using N D by (simp add: w_def)
  have c: "GetBinCenter a i = Xmin a + (real i - 1 / 2) * w"
    unfolding GetBinCenter_def w_def [symmetric] by (simp add: algebra_simps)
  have lo: "\<not> GetBinCenter a i < Xmin a"
  proof -
    have "0 \<le> (real i - 1 / 2) * w" using w assms(2) by simp
    then show ?thesis by (simp add: c)
  qed
  have hi: "GetBinCenter a i < Xmax a"
  proof -
    have "(real i - 1 / 2) * w < real (Nbins a) * w"
      using w assms(3) by simp
    also have "\<dots> = Xmax a - Xmin a" using N by (simp add: w_def)
    finally show ?thesis by (simp add: c)
  qed
  have "real (Nbins a) * (GetBinCenter a i - Xmin a) / (Xmax a - Xmin a) = real i - 1 / 2"
    using N D by (simp add: c w_def)
  moreover have "\<lfloor>real i - 1 / 2\<rfloor> = int i - 1"
    by (simp add: floor_eq_iff)
  ultimately show ?thesis using lo hi assms(2) by (simp add: FindBin_def)
qed

text \<open>
  Claim C10. A constituent is taken for a ghost by the test \<open>pt \<le> 1e-50\<close> alone, with
  \<open>1e-50\<close> the double that the source compares with (\<open>ghost_cut\<close>): a cell
  holds the sum of the jet pT over all constituents that pass the test and lie in it, a
  ghost (pT \<open>1e-100\<close>) passes the test, and a jet made of one particle of the event deposits
  its pT at that particle's cell exactly when the particle's pT is at most \<open>1e-50\<close>.
\<close>

theorem ghost_test_is_numeric:
  "content (fill_pTflow h jets) b = sum_list (deposits h jets b)
   \<and> pTghost \<le> ghost_cut
   \<and> content (fill_pTflow h [\<lparr>pt = jp, rap = r, phi_std = f, constituents = [PseudoJet_of p]\<rparr>])
        (cell_of h (p_y p) (p_phi p)) = (if pT p \<le> ghost_cut then jp else 0)"
  by (simp add: fill_pTflow_content deposits_def jet_pairs_def ghost_like_def PseudoJet_of_def
      pTghost_def ghost_cut_def)

lemma ghosts_of_mem:
  "g \<in> set (ghosts_of h) \<longleftrightarrow>
     (\<exists>iy iphi. 1 \<le> iy \<and> iy \<le> Nbins (Xaxis h) \<and> 1 \<le> iphi \<and> iphi \<le> Nbins (Yaxis h)
        \<and> g = \<lparr>pt = pTghost, rap = GetBinCenter (Xaxis h) iy, phi_std = GetBinCenter (Yaxis h) iphi\<rparr>)"
proof -
  have "set [1 ..< Suc n] = {i. 1 \<le> i \<and> i \<le> n}" for n :: nat
    by (auto simp del: upt_Suc)
  then show ?thesis
    unfolding ghosts_of_def reset_momentum_PtYPhiM_def set_concat set_map
    by (simp del: upt_Suc) blast
qed

lemma ghost_pt: "g \<in> set (ghosts_of h) \<Longrightarrow> pt g \<le> ghost_cut"
  by (auto simp: ghosts_of_mem pTghost_def ghost_cut_def)

lemma ghost_cell_inj:
  assumes "valid_axis (Xaxis h)" "valid_axis (Yaxis h)"
    and "g \<in> set (ghosts_of h)" "g' \<in> set (ghosts_of h)"
    and "cell_of h (rap g) (phi_std g) = cell_of h (rap g') (phi_std g')"
  shows "g = g'"
proof -
  obtain iy iphi where g: "1 \<le> iy" "iy \<le> Nbins (Xaxis h)" "1 \<le> iphi" "iphi \<le> Nbins (Yaxis h)"
    "g = \<lparr>pt = pTghost, rap = GetBinCenter (Xaxis h) iy, phi_std = GetBinCenter (Yaxis h) iphi\<rparr>"
    using assms(3) unfolding ghosts_of_mem by blast
  obtain jy jphi where g': "1 \<le> jy" "jy \<le> Nbins (Xaxis h)" "1 \<le> jphi" "jphi \<le> Nbins (Yaxis h)"
    "g' = \<lparr>pt = pTghost, rap = GetBinCenter (Xaxis h) jy, phi_std = GetBinCenter (Yaxis h) jphi\<rparr>"
    using assms(4) unfolding ghosts_of_mem by blast
  have "cell_of h (rap g) (phi_std g) = (iy, iphi)"
    using g assms(1,2) by (simp add: cell_of_def FindBin_GetBinCenter)
  moreover have "cell_of h (rap g') (phi_std g') = (jy, jphi)"
    using g' assms(1,2) by (simp add: cell_of_def FindBin_GetBinCenter)
  ultimately have "iy = jy" "iphi = jphi" using assms(5) by simp_all
  then show ?thesis using g(5) g'(5) by simp
qed

lemma filter_at_most_one:
  "\<forall>x\<in>set xs. P x \<longrightarrow> snd x = g \<Longrightarrow> count_list (map snd xs) g \<le> 1 \<Longrightarrow> length (filter P xs) \<le> 1"
proof (induction xs)
  case Nil
  then show ?case by simp
next
  case (Cons x xs)
  show ?case
  proof (cases "P x")
    case True
    then have sx: "snd x = g" using Cons.prems(1) by simp
    then have c0: "count_list (map snd xs) g = 0" using Cons.prems(2) by simp
    have "filter P xs = []"
    proof (rule ccontr)
      assume "filter P xs \<noteq> []"
      then obtain z where "z \<in> set xs" "P z" by (auto simp: filter_empty_conv)
      then have "snd z = g" using Cons.prems(1) by simp
      moreover have "snd z \<in> set (map snd xs)" using \<open>z \<in> set xs\<close> by simp
      ultimately show False using c0 by (simp add: count_list_0_iff)
    qed
    then show ?thesis using True by simp
  next
    case False
    then show ?thesis using Cons by (simp split: if_splits)
  qed
qed

lemma map_snd_jet_pairs: "map snd (jet_pairs jets) = concat (map constituents jets)"
  by (induction jets) (simp_all add: jet_pairs_def comp_def)

lemma deposits_are_ghost_owners:
  assumes "real_above_cut h jets"
  shows "deposits h jets b = ghost_owners h jets b"
proof -
  have "ghost_like h b (snd jc) \<longleftrightarrow>
          (snd jc \<in> set (ghosts_of h) \<and> cell_of h (rap (snd jc)) (phi_std (snd jc)) = b)"
    if "jc \<in> set (jet_pairs jets)" for jc
  proof -
    have "snd jc \<in> set (concat (map constituents jets))"
      using that map_snd_jet_pairs [of jets] by (metis image_eqI set_map)
    then have "snd jc \<in> set (ghosts_of h) \<or> pt (snd jc) > ghost_cut"
      using assms unfolding real_above_cut_def list_all_iff by blast
    then show ?thesis using ghost_pt [of "snd jc" h] unfolding ghost_like_def by fastforce
  qed
  then have "filter (\<lambda>jc. ghost_like h b (snd jc)) (jet_pairs jets)
           = filter (\<lambda>jc. snd jc \<in> set (ghosts_of h) \<and> cell_of h (rap (snd jc)) (phi_std (snd jc)) = b)
                    (jet_pairs jets)"
    by (intro filter_cong refl)
  then show ?thesis unfolding deposits_def ghost_owners_def by (rule arg_cong)
qed

lemma ghost_owners_at_most_one:
  assumes "valid_axis (Xaxis h)" "valid_axis (Yaxis h)" "ghost_owned_once h jets"
  shows "length (ghost_owners h jets b) \<le> 1"
proof -
  let ?P = "\<lambda>jc. snd jc \<in> set (ghosts_of h) \<and> cell_of h (rap (snd jc)) (phi_std (snd jc)) = b"
  show ?thesis
  proof (cases "filter ?P (jet_pairs jets) = []")
    case True
    then show ?thesis by (simp add: ghost_owners_def)
  next
    case False
    then obtain z where z: "z \<in> set (jet_pairs jets)" "?P z"
      unfolding filter_empty_conv by blast
    have uniq: "\<forall>x\<in>set (jet_pairs jets). ?P x \<longrightarrow> snd x = snd z"
    proof (intro ballI impI)
      fix x assume "x \<in> set (jet_pairs jets)" and "?P x"
      then show "snd x = snd z"
        using z(2) by (intro ghost_cell_inj [OF assms(1,2)]) simp_all
    qed
    have "count_list (concat (map constituents jets)) (snd z) \<le> 1"
      using assms(3) z(2) unfolding ghost_owned_once_def list_all_iff by blast
    then have "count_list (map snd (jet_pairs jets)) (snd z) \<le> 1"
      by (simp add: map_snd_jet_pairs)
    from filter_at_most_one [OF uniq this] show ?thesis by (simp add: ghost_owners_def)
  qed
qed

text \<open>
  Claim C4, amended. For a histogram with valid axes and a jet set in which every ghost
  probe is a constituent of at most one jet and every other constituent has a pT above
  the double \<open>1e-50\<close> (\<open>ghost_cut\<close>): the grid is all zero after the reset that precedes the jet loop; the deposits
  into a cell are exactly those of the jets owning the ghost of that cell; at most one jet
  owns it; and the cell's final value is the pT of that jet, or zero when no jet owns it.
\<close>

theorem flow_of_disjoint_ghosts:
  assumes "valid_axis (Xaxis h)" "valid_axis (Yaxis h)"
    and "ghost_owned_once h jets" "real_above_cut h jets"
  shows "content (Reset h) b = 0
       \<and> deposits h jets b = ghost_owners h jets b
       \<and> length (ghost_owners h jets b) \<le> 1
       \<and> content (fill_pTflow h jets) b = (case ghost_owners h jets b of [] \<Rightarrow> 0 | a # as \<Rightarrow> a)"
proof -
  have d: "deposits h jets b = ghost_owners h jets b"
    using assms(4) by (rule deposits_are_ghost_owners)
  have l: "length (ghost_owners h jets b) \<le> 1"
    using assms(1-3) by (rule ghost_owners_at_most_one)
  have "content (fill_pTflow h jets) b = sum_list (ghost_owners h jets b)"
    by (simp add: fill_pTflow_content d)
  also have "\<dots> = (case ghost_owners h jets b of [] \<Rightarrow> 0 | a # as \<Rightarrow> a)"
    using l by (cases "ghost_owners h jets b") simp_all
  finally show ?thesis using d l by (simp add: Reset_def)
qed

lemma ghosts_h4:
  "ghosts_of h4 = [reset_momentum_PtYPhiM pTghost x y. x \<leftarrow> [-3, -1, 1, 3], y \<leftarrow> [-3/2, -1/2, 1/2, 3/2]]"
  by (simp add: ghosts_of_def h4_def new_TH2D_def GetBinCenter_def upt_conv_Cons)

theorem flow_of_disjoint_ghosts_witness:
  "valid_axis (Xaxis h4) \<and> valid_axis (Yaxis h4) \<and> ghost_owned_once h4 [jet50]
   \<and> real_above_cut h4 [jet50]
   \<and> content (fill_pTflow h4 [jet50]) (1, 1) = 50
   \<and> content (fill_pTflow h4 [jet50]) (1, 2) = 50
   \<and> content (fill_pTflow h4 [jet50]) (2, 1) = 50
   \<and> content (fill_pTflow h4 [jet50]) (2, 2) = 0"
proof -
  have a: "valid_axis (Xaxis h4)" "valid_axis (Yaxis h4)"
    by (simp_all add: valid_axis_def h4_def new_TH2D_def)
  have b: "ghost_owned_once h4 [jet50]"
    by (simp add: ghost_owned_once_def ghosts_h4 jet50_def reset_momentum_PtYPhiM_def)
  have c: "real_above_cut h4 [jet50]"
    by (simp add: real_above_cut_def ghosts_h4 jet50_def reset_momentum_PtYPhiM_def
        ghost_cut_def)
  have ax: "Xaxis h4 = \<lparr>Nbins = 4, Xmin = - 4, Xmax = 4\<rparr>" "Yaxis h4 = \<lparr>Nbins = 4, Xmin = - 2, Xmax = 2\<rparr>"
    by (simp_all add: h4_def new_TH2D_def)
  have o: "ghost_owners h4 [jet50] (1, 1) = [50]" "ghost_owners h4 [jet50] (1, 2) = [50]"
    "ghost_owners h4 [jet50] (2, 1) = [50]" "ghost_owners h4 [jet50] (2, 2) = []"
    by (simp_all add: ghost_owners_def jet_pairs_def ghosts_h4 jet50_def
        reset_momentum_PtYPhiM_def cell_of_def FindBin_def ax)
  have "content (fill_pTflow h4 [jet50]) (1, 1) = 50"
    using flow_of_disjoint_ghosts [OF a b c, of "(1, 1)"] unfolding o by simp
  moreover have "content (fill_pTflow h4 [jet50]) (1, 2) = 50"
    using flow_of_disjoint_ghosts [OF a b c, of "(1, 2)"] unfolding o by simp
  moreover have "content (fill_pTflow h4 [jet50]) (2, 1) = 50"
    using flow_of_disjoint_ghosts [OF a b c, of "(2, 1)"] unfolding o by simp
  moreover have "content (fill_pTflow h4 [jet50]) (2, 2) = 0"
    using flow_of_disjoint_ghosts [OF a b c, of "(2, 2)"] unfolding o by simp
  ultimately show ?thesis using a b c by simp
qed

text \<open>
  Claim C4 as stated fails: a jet that holds a particle of the event with pT \<open>1e-60\<close>
  owns no ghost, and the particle's cell, which no jet claims, ends with the jet's pT.
\<close>

theorem real_particle_deposit_counterexample:
  "ghost_owned_once pTflow0 [jet_soft]
   \<and> PseudoJet_of soft_particle \<notin> set (ghosts_of pTflow0)
   \<and> ghost_owners pTflow0 [jet_soft] (cell_of pTflow0 (p_y soft_particle) (p_phi soft_particle)) = []
   \<and> content (fill_pTflow pTflow0 [jet_soft])
        (cell_of pTflow0 (p_y soft_particle) (p_phi soft_particle)) = 30"
proof -
  have ng: "c \<notin> set (ghosts_of pTflow0)" if "pt c \<noteq> pTghost" for c
    using that by (auto simp: ghosts_of_mem)
  have s: "PseudoJet_of soft_particle \<notin> set (ghosts_of pTflow0)"
    by (rule ng) (simp add: PseudoJet_of_def soft_particle_def pTghost_def)
  have t: "PseudoJet_of hard_particle \<notin> set (ghosts_of pTflow0)"
    by (rule ng) (simp add: PseudoJet_of_def hard_particle_def pTghost_def)
  have neq: "PseudoJet_of hard_particle \<noteq> PseudoJet_of soft_particle"
    by (simp add: PseudoJet_of_def hard_particle_def soft_particle_def)
  have "ghost_owned_once pTflow0 [jet_soft]"
    unfolding ghost_owned_once_def list_all_iff using neq by (simp add: jet_soft_def)
  moreover have "ghost_owners pTflow0 [jet_soft]
      (cell_of pTflow0 (p_y soft_particle) (p_phi soft_particle)) = []"
    using s t by (simp add: ghost_owners_def jet_pairs_def jet_soft_def)
  moreover have "content (fill_pTflow pTflow0 [jet_soft])
      (cell_of pTflow0 (p_y soft_particle) (p_phi soft_particle)) = 30"
    by (simp add: fill_pTflow_content deposits_def jet_pairs_def jet_soft_def ghost_like_def
        PseudoJet_of_def hard_particle_def soft_particle_def ghost_cut_def)
  ultimately show ?thesis using s by simp
qed

text \<open>
  Claim C3, amended. If exactly two deposits fall into a cell, of jets with pT \<open>a1\<close> and then
  \<open>a2\<close>, the cell's final value is \<open>a1 + a2\<close>: the later deposit is added to the earlier one.
\<close>

theorem two_deposits_add:
  "deposits h jets b = [a1, a2] \<Longrightarrow> content (fill_pTflow h jets) b = a1 + a2"
  by (simp add: fill_pTflow_content)

lemma deposits_jetAB:
  "deposits pTflow0 [jetA, jetB] (cell_of pTflow0 (rap ghost0) (phi_std ghost0)) = [30, 40]"
  by (simp add: deposits_def jet_pairs_def jetA_def jetB_def ghost_like_def ghost0_def
      reset_momentum_PtYPhiM_def pTghost_def ghost_cut_def)

theorem two_deposits_add_witness:
  "deposits pTflow0 [jetA, jetB] (cell_of pTflow0 (rap ghost0) (phi_std ghost0)) = [30, 40]
   \<and> content (fill_pTflow pTflow0 [jetA, jetB]) (cell_of pTflow0 (rap ghost0) (phi_std ghost0)) = 30 + 40"
  using two_deposits_add [OF deposits_jetAB] deposits_jetAB by simp

lemma ghost0_probe: "ghost0 \<in> set (ghosts_of pTflow0)"
proof -
  have "GetBinCenter (Xaxis pTflow0) 101 = 0.02"
    by (simp add: pTflow0_def new_TH2D_def GetBinCenter_def NyBins_def yMax_def)
  moreover have "GetBinCenter (Yaxis pTflow0) 79 = 0"
    by (simp add: pTflow0_def new_TH2D_def GetBinCenter_def NphiBins_def phiMax_def)
  moreover have "Nbins (Xaxis pTflow0) = 200" "Nbins (Yaxis pTflow0) = 157"
    by (simp_all add: pTflow0_def new_TH2D_def NyBins_def NphiBins_def)
  ultimately show ?thesis
    unfolding ghosts_of_mem ghost0_def reset_momentum_PtYPhiM_def
    by (intro exI [of _ 101] exI [of _ 79]) simp
qed

text \<open>
  Claim C3 as stated fails: two jets of pT 30 and 40 that both own the ghost of one cell
  leave 70 in it, not the 40 of the jet written last.
\<close>

theorem last_writer_counterexample:
  "ghost0 \<in> set (ghosts_of pTflow0)
   \<and> ghost0 \<in> set (constituents jetA) \<and> ghost0 \<in> set (constituents jetB)
   \<and> content (fill_pTflow pTflow0 [jetA, jetB]) (cell_of pTflow0 (rap ghost0) (phi_std ghost0)) = 70
   \<and> pt jetB = 40"
proof -
  have "content (fill_pTflow pTflow0 [jetA, jetB]) (cell_of pTflow0 (rap ghost0) (phi_std ghost0)) = 70"
    by (simp add: fill_pTflow_content deposits_jetAB)
  then show ?thesis using ghost0_probe by (simp add: jetA_def jetB_def)
qed

lemma algo_loop_labels:
  "map page_label (snd (algo_loop env d h stbl first defs)) = map fst defs"
  by (induction defs arbitrary: h first) (simp_all add: Let_def)

lemma algo_loop_jetDefs:
  "map page_jetDef (snd (algo_loop env d h stbl first defs)) = map snd defs"
  by (induction defs arbitrary: h first) (simp_all add: Let_def)

lemma algo_loop_keys:
  "map page_key (snd (algo_loop env d h stbl first defs)) = map (\<lambda>jd. (iEvent d, fst jd)) defs"
  by (induction defs arbitrary: h first) (simp_all add: Let_def page_key_def)

lemma algo_loop_input:
  "p \<in> set (snd (algo_loop env d h stbl first defs)) \<Longrightarrow>
     page_input p = stbl \<and> page_jets p = inclusive_jets env stbl (page_jetDef p)
     \<and> page_event p = iEvent d
     \<and> page_markers p = draw_ptcls_pu (ptcls_pu d) @ draw_ptcls_hs (ptcls_hs d)"
  by (induction defs arbitrary: h first) (auto simp: Let_def)

lemma algo_loop_legend:
  "map page_legend (snd (algo_loop env d h stbl first defs))
     = (case defs of [] \<Rightarrow> [] | jd # rest \<Rightarrow> (if first then draw_legend else []) # replicate (length rest) [])"
proof (induction defs arbitrary: h first)
  case Nil
  then show ?case by simp
next
  case (Cons jd rest)
  show ?case using Cons.IH [of _ False]
    by (cases rest) (simp_all add: Let_def)
qed

lemma algo_loop_axes [simp]:
  "Xaxis (fst (algo_loop env d h stbl first defs)) = Xaxis h"
  "Yaxis (fst (algo_loop env d h stbl first defs)) = Yaxis h"
  by (induction defs arbitrary: h first) (simp_all add: Let_def)

lemma process_event_valid:
  assumes "pythia_next env i = Some ev" "length (VH_of ev) = 2"
  shows "process_event env defs st i =
     (let r = algo_loop env
                \<lparr>iEvent = i, event = ev, VH = VH_of ev, ptcls_hs = filter isFinal ev,
                 ptcls_pu = pileup_finals (pythiaPU_next env) (pu_calls st) (nat (Poisson env (rng_calls st)))\<rparr>
                (pTflow st) (stbl_ptcls_of env st ev) True defs
      in (\<lparr>pTflow = fst r, pu_calls = pu_calls st + nat (Poisson env (rng_calls st)),
           rng_calls = Suc (rng_calls st)\<rparr>, snd r))"
  using assms
  by (simp add: process_event_def Let_def pileup_loop_eq stbl_ptcls_of_def ptcls_hs_of_def)

lemma process_event_skip:
  "pythia_next env i = None \<or> (\<exists>ev. pythia_next env i = Some ev \<and> length (VH_of ev) \<noteq> 2)
    \<Longrightarrow> process_event env defs st i = (st, [])"
  by (auto simp: process_event_def)

text \<open>
  Claim C5. An event whose number of identified resonances differs from 2 is skipped as a
  normal outcome: the loop body returns no page (so nothing is clustered or drawn for it)
  and leaves the state as it was, and the event loop goes on with the next event.
\<close>

theorem invalid_event_skipped:
  assumes "pythia_next env i = Some ev" "length (VH_of ev) \<noteq> 2"
  shows "process_event env defs st i = (st, [])
       \<and> event_loop env defs st (i # is) = event_loop env defs st is"
proof -
  have "process_event env defs st i = (st, [])"
    using assms by (intro process_event_skip) simp
  then show ?thesis by (simp add: Let_def)
qed

lemma jetDefs_labels: "map fst (jetDefs_of a k c) = sort (configured_labels a k c)"
  by (cases a; cases k; cases c)
     (simp_all add: jetDefs_of_def configured_labels_def label_antikt_def label_kt_def
        label_ca_def to_string_R_def)

lemma process_event_keys:
  "map page_key (snd (process_event env defs st i))
     = (if valid_event env i then map (\<lambda>jd. (i, fst jd)) defs else [])"
proof (cases "pythia_next env i")
  case None
  then show ?thesis by (simp add: process_event_def valid_event_def)
next
  case (Some ev)
  show ?thesis
  proof (cases "length (VH_of ev) = 2")
    case True
    then show ?thesis using Some
      by (simp add: process_event_valid Let_def algo_loop_keys valid_event_def)
  next
    case False
    then show ?thesis using Some by (simp add: process_event_def valid_event_def)
  qed
qed

lemma process_event_legend:
  "map page_legend (snd (process_event env defs st i))
     = (if valid_event env i
        then (case defs of [] \<Rightarrow> [] | jd # rest \<Rightarrow> draw_legend # replicate (length rest) [])
        else [])"
proof (cases "pythia_next env i")
  case None
  then show ?thesis by (simp add: process_event_def valid_event_def)
next
  case (Some ev)
  show ?thesis
  proof (cases "length (VH_of ev) = 2")
    case True
    then show ?thesis using Some
      by (simp add: process_event_valid Let_def algo_loop_legend valid_event_def)
  next
    case False
    then show ?thesis using Some by (simp add: process_event_def valid_event_def)
  qed
qed

lemma event_loop_map:
  "map f (snd (event_loop env defs st is))
     = concat (map (\<lambda>i. map f (snd (process_event env defs (g i) i))) is)"
  if "\<And>st st' i. map f (snd (process_event env defs st i)) = map f (snd (process_event env defs st' i))"
  using that
proof (induction "is" arbitrary: st)
  case Nil
  then show ?case by simp
next
  case (Cons i "is")
  have "map f (snd (process_event env defs st i)) = map f (snd (process_event env defs (g i) i))"
    by (rule Cons.prems)
  then show ?case using Cons.IH [OF Cons.prems] by (simp add: Let_def)
qed

lemma event_loop_keys:
  "map page_key (snd (event_loop env defs st is))
     = concat (map (\<lambda>i. if valid_event env i then map (\<lambda>jd. (i, fst jd)) defs else []) is)"
  using event_loop_map [of page_key env defs st "is" "\<lambda>i. st"]
  by (simp add: process_event_keys)

lemma event_loop_legend:
  "map page_legend (snd (event_loop env defs st is))
     = concat (map (\<lambda>i. if valid_event env i
        then (case defs of [] \<Rightarrow> [] | jd # rest \<Rightarrow> draw_legend # replicate (length rest) [])
        else []) is)"
  using event_loop_map [of page_legend env defs st "is" "\<lambda>i. st"]
  by (simp add: process_event_legend)

lemma upt_two: "[0 ..< 2] = [0, 1]"
  by (simp add: upt_rec)

lemma jetDefs_value:
  "jetDefs = [(label_kt, JetDefinition kt_algorithm R E_scheme Best),
              (label_antikt, JetDefinition antikt_algorithm R E_scheme Best)]"
  by (simp add: jetDefs_def jetDefs_of_def doAntik_t_def dok_t_def doCambridge_Aachen_def
      label_antikt_def label_kt_def to_string_R_def)

lemma ev_WH_valid: "length (VH_of ev_WH) = 2"
  by (simp add: VH_of_def ev_WH_def W_boson_def H_boson_def hard_particle_def neutral_particle_def)

lemma env2_valid: "valid_event env2 i"
  by (simp add: valid_event_def env2_def ev_WH_valid)

text \<open>
  Claim C1, amended. For every valid event the per-algorithm pages are produced in the
  ascending order of the labels, which is the iteration order of the map keyed by the
  label: the page order is the sorted list of the configured labels, whatever the order
  in which they were inserted.
\<close>

theorem pages_in_label_order:
  assumes "pythia_next env i = Some ev" "length (VH_of ev) = 2"
  shows "map page_key (snd (process_event env (jetDefs_of a k c) st i))
           = map (Pair i) (sort (configured_labels a k c))"
proof -
  have "valid_event env i" using assms by (simp add: valid_event_def)
  then have "map page_key (snd (process_event env (jetDefs_of a k c) st i))
               = map (Pair i) (map fst (jetDefs_of a k c))"
    by (simp add: process_event_keys)
  then show ?thesis by (simp only: jetDefs_labels)
qed

theorem pages_in_label_order_witness:
  "pythia_next env2 0 = Some ev_WH \<and> length (VH_of ev_WH) = 2
   \<and> configured_labels True True False = [label_antikt, label_kt]
   \<and> map page_key (snd (process_event env2 (jetDefs_of True True False) st0 0))
       = [(0, label_kt), (0, label_antikt)]"
proof -
  have a: "pythia_next env2 0 = Some ev_WH" by (simp add: env2_def)
  have s: "sort (configured_labels True True False) = [label_kt, label_antikt]"
    by (simp add: configured_labels_def label_antikt_def label_kt_def to_string_R_def)
  show ?thesis
    using pages_in_label_order [OF a ev_WH_valid, of True True False st0] a ev_WH_valid
    by (simp add: s) (simp add: configured_labels_def)
qed

text \<open>
  Claim C1 as stated fails on the program's own configuration: the labels are configured
  in the order anti-kt, kt, and with two valid events the pages come in the order
  kt, anti-kt, kt, anti-kt.
\<close>

theorem configured_order_counterexample:
  "configured_labels doAntik_t dok_t doCambridge_Aachen = [label_antikt, label_kt]
   \<and> map page_key (main env2 2) = [(0, label_kt), (0, label_antikt), (1, label_kt), (1, label_antikt)]
   \<and> label_antikt \<noteq> label_kt"
proof -
  have "map page_key (main env2 2)
      = concat (map (\<lambda>i. if valid_event env2 i then map (\<lambda>jd. (i, fst jd)) jetDefs else [])
                    [0 ..< nat 2])"
    unfolding main_def run_def by (rule event_loop_keys)
  then have "map page_key (main env2 2)
      = [(0, label_kt), (0, label_antikt), (1, label_kt), (1, label_antikt)]"
    by (simp add: upt_two env2_valid jetDefs_value)
  moreover have "label_antikt \<noteq> label_kt"
    by (simp add: label_antikt_def label_kt_def)
  ultimately show ?thesis
    by (simp add: configured_labels_def doAntik_t_def dok_t_def doCambridge_Aachen_def)
qed

text \<open>
  Claim C2, amended. The legend box, its texts and its markers are drawn on the first
  page of every valid event (the first algorithm in iteration order) and on no other page
  of that event: the flag \<^verbatim>\<open>first\<close> is set anew for each event.
\<close>

theorem legend_on_first_page_of_each_event:
  assumes "pythia_next env i = Some ev" "length (VH_of ev) = 2"
  shows "map page_legend (snd (process_event env defs st i))
           = (case defs of [] \<Rightarrow> [] | jd # rest \<Rightarrow> draw_legend # replicate (length rest) [])
       \<and> draw_legend \<noteq> []"
proof -
  have "valid_event env i" using assms by (simp add: valid_event_def)
  then show ?thesis by (simp add: process_event_legend draw_legend_def)
qed

theorem legend_on_first_page_of_each_event_witness:
  "pythia_next env2 1 = Some ev_WH \<and> length (VH_of ev_WH) = 2
   \<and> map page_legend (snd (process_event env2 jetDefs st0 1)) = [draw_legend, []]
   \<and> draw_legend \<noteq> []"
proof -
  have a: "pythia_next env2 1 = Some ev_WH" by (simp add: env2_def)
  show ?thesis
    using legend_on_first_page_of_each_event [OF a ev_WH_valid, of jetDefs st0] a ev_WH_valid
    by (simp add: jetDefs_value)
qed

text \<open>
  Claim C2 as stated fails: in a run of two valid events with the two configured
  algorithms, the legend is drawn on the first and on the third page.
\<close>

theorem legend_once_per_run_counterexample:
  "map page_legend (main env2 2) = [draw_legend, [], draw_legend, []] \<and> draw_legend \<noteq> []"
proof -
  have "map page_legend (main env2 2)
      = concat (map (\<lambda>i. if valid_event env2 i
          then (case jetDefs of [] \<Rightarrow> [] | jd # rest \<Rightarrow> draw_legend # replicate (length rest) [])
          else []) [0 ..< nat 2])"
    unfolding main_def run_def by (rule event_loop_legend)
  then have "map page_legend (main env2 2) = [draw_legend, [], draw_legend, []]"
    by (simp add: upt_two env2_valid jetDefs_value)
  then show ?thesis by (simp add: draw_legend_def)
qed

theorem invalid_event_skipped_witness:
  "pythia_next env1 0 = Some ev_W \<and> length (VH_of ev_W) \<noteq> 2
   \<and> process_event env1 jetDefs st0 0 = (st0, [])
   \<and> event_loop env1 jetDefs st0 [0, 1] = event_loop env1 jetDefs st0 [1]
   \<and> map page_key (snd (event_loop env1 jetDefs st0 [0, 1])) = [(1, label_kt), (1, label_antikt)]"
proof -
  have a: "pythia_next env1 0 = Some ev_W" by (simp add: env1_def)
  have b: "length (VH_of ev_W) \<noteq> 2"
    by (simp add: VH_of_def ev_W_def W_boson_def hard_particle_def)
  have v: "\<not> valid_event env1 0" "valid_event env1 1"
    using b by (simp_all add: valid_event_def env1_def ev_WH_valid)
  have "map page_key (snd (event_loop env1 jetDefs st0 [0, 1])) = [(1, label_kt), (1, label_antikt)]"
    unfolding event_loop_keys using v by (simp add: jetDefs_value)
  then show ?thesis
    using invalid_event_skipped [OF a b, of jetDefs st0 "[1]"] a b by simp
qed

text \<open>
  Claim C8. Within a valid event every page was clustered from the same particle sequence,
  the one built before the algorithm loop: the final particles of the hard scatter, then
  the ghost probes, then the final particles of the pileup events; the jets of each page
  are the clustering of that sequence with the page's jet definition, and there is one
  page per configured jet definition.
\<close>

theorem pool_shared_by_algorithms:
  assumes "pythia_next env i = Some ev" "length (VH_of ev) = 2"
    and "p \<in> set (snd (process_event env defs st i))"
  shows "page_input p = stbl_ptcls_of env st ev
       \<and> page_jets p = inclusive_jets env (stbl_ptcls_of env st ev) (page_jetDef p)
       \<and> map page_jetDef (snd (process_event env defs st i)) = map snd defs"
  using assms algo_loop_input [of p env _ "pTflow st" "stbl_ptcls_of env st ev" True defs]
  by (simp add: process_event_valid Let_def algo_loop_jetDefs)

lemma pages0_keys: "map page_key pages0 = [(0, label_kt), (0, label_antikt)]"
  by (simp add: pages0_def process_event_keys env2_valid jetDefs_value)

lemma upt3: "[0 ..< 3] = [0, 1, 2]"
  by (simp add: upt_rec)

lemma pool0: "stbl_ptcls_of env2 st0 ev_WH
    = [PseudoJet_of hard_particle, PseudoJet_of neutral_particle] @ ghosts_of pTflow0
      @ [PseudoJet_of hard_particle, PseudoJet_of hard_particle]"
  by (simp add: stbl_ptcls_of_def pileup_finals_def pileup_events_def upt3 env2_def st0_def
      ev_WH_def W_boson_def H_boson_def hard_particle_def neutral_particle_def)

theorem pool_shared_by_algorithms_witness:
  "pythia_next env2 0 = Some ev_WH \<and> length (VH_of ev_WH) = 2
   \<and> last pages0 \<in> set pages0
   \<and> page_input (last pages0)
       = [PseudoJet_of hard_particle, PseudoJet_of neutral_particle] @ ghosts_of pTflow0
         @ [PseudoJet_of hard_particle, PseudoJet_of hard_particle]
   \<and> page_input (hd pages0) = page_input (last pages0)
   \<and> map page_jetDef pages0 = [JetDefinition kt_algorithm R E_scheme Best,
                                 JetDefinition antikt_algorithm R E_scheme Best]"
proof -
  have a: "pythia_next env2 0 = Some ev_WH" by (simp add: env2_def)
  have ne: "pages0 \<noteq> []" using pages0_keys by auto
  then have m: "last pages0 \<in> set (snd (process_event env2 jetDefs st0 0))"
    "hd pages0 \<in> set (snd (process_event env2 jetDefs st0 0))"
    by (simp_all add: pages0_def [symmetric])
  note l = pool_shared_by_algorithms [OF a ev_WH_valid m(1), unfolded pool0, folded pages0_def]
  note h = pool_shared_by_algorithms [OF a ev_WH_valid m(2), unfolded pool0, folded pages0_def]
  have j: "map snd jetDefs = [JetDefinition kt_algorithm R E_scheme Best,
                              JetDefinition antikt_algorithm R E_scheme Best]"
    by (simp add: jetDefs_value)
  show ?thesis
    using l h a ev_WH_valid ne unfolding j by simp
qed

lemma draw_ptcls_pu_eq:
  "draw_ptcls_pu ps = concat (map pu_markers (filter qualifies ps))"
  by (induction ps) (simp_all add: qualifies_def pu_markers_def drawParticleMarker_def sgn_real_def)

lemma draw_ptcls_hs_eq:
  "draw_ptcls_hs ps = concat (map hs_markers (filter qualifies ps))"
  by (induction ps) (simp_all add: qualifies_def hs_markers_def drawParticleMarker_def sgn_real_def)

lemma process_event_markers:
  assumes "pythia_next env i = Some ev" "length (VH_of ev) = 2"
    and "p \<in> set (snd (process_event env defs st i))"
  shows "page_markers p =
     draw_ptcls_pu (pileup_finals (pythiaPU_next env) (pu_calls st) (nat (Poisson env (rng_calls st))))
     @ draw_ptcls_hs (filter isFinal ev)"
  using assms algo_loop_input [of p env _ "pTflow st" "stbl_ptcls_of env st ev" True defs]
  by (simp add: process_event_valid Let_def)

text \<open>
  Claim C7, amended. On every page of a valid event the particle markers are, in order:
  one marker for every pileup particle that passes the cuts (absolute rapidity below
  \<open>yMax\<close> and pT above \<open>pTmin_hadron\<close>), then for every hard-scatter final particle that
  passes them one marker if it is charged and two markers (a box of style 21 and a cross
  of style 5) if it is neutral. Style, colour and size depend on the provenance and on the
  sign of the charge only; a particle that fails the cuts has no marker.
\<close>

theorem markers_of_qualifying_particles:
  assumes "pythia_next env i = Some ev" "length (VH_of ev) = 2"
    and "p \<in> set (snd (process_event env defs st i))"
  shows "page_markers p =
       concat (map pu_markers (filter qualifies
         (pileup_finals (pythiaPU_next env) (pu_calls st) (nat (Poisson env (rng_calls st))))))
       @ concat (map hs_markers (filter qualifies (filter isFinal ev)))
     \<and> length (pu_markers q) = 1
     \<and> length (hs_markers q) = (if charge q = 0 then 2 else 1)"
  using process_event_markers [OF assms]
  by (simp add: draw_ptcls_pu_eq draw_ptcls_hs_eq pu_markers_def hs_markers_def sgn_real_def)

text \<open>
  Claim C7 as stated fails: in an event whose final particles are a charged and a neutral
  one, both passing the cuts, with two pileup particles passing them, each page has five
  markers for these four particles: the neutral hard-scatter particle has two.
\<close>

theorem one_marker_per_particle_counterexample:
  "ptcls_hs_of ev_WH = [hard_particle, neutral_particle]
   \<and> \<bar>p_y neutral_particle\<bar> < yMax \<and> pT neutral_particle > pTmin_hadron
   \<and> event_at ev_WH (daughter1 W_boson) = Some hard_particle
   \<and> event_at ev_WH (daughter2 W_boson) = Some neutral_particle
   \<and> event_at ev_WH (daughter1 H_boson) = Some hard_particle
   \<and> event_at ev_WH (daughter2 H_boson) = Some neutral_particle
   \<and> map page_key (main env2 1) = [(0, label_kt), (0, label_antikt)]
   \<and> map page_markers (main env2 1)
       = [[ParticleMarker hard_particle 24 colPU 0.4, ParticleMarker hard_particle 24 colPU 0.4,
           ParticleMarker hard_particle 5 colPos 0.8,
           ParticleMarker neutral_particle 21 colNeut 0.4, ParticleMarker neutral_particle 5 colNeut 0.8],
          [ParticleMarker hard_particle 24 colPU 0.4, ParticleMarker hard_particle 24 colPU 0.4,
           ParticleMarker hard_particle 5 colPos 0.8,
           ParticleMarker neutral_particle 21 colNeut 0.4, ParticleMarker neutral_particle 5 colNeut 0.8]]"
proof -
  let ?ms = "[ParticleMarker hard_particle 24 colPU 0.4, ParticleMarker hard_particle 24 colPU 0.4,
              ParticleMarker hard_particle 5 colPos 0.8,
              ParticleMarker neutral_particle 21 colNeut 0.4, ParticleMarker neutral_particle 5 colNeut 0.8]"
  have f: "filter isFinal ev_WH = [hard_particle, neutral_particle]"
    by (simp add: ev_WH_def W_boson_def H_boson_def hard_particle_def neutral_particle_def)
  have q: "\<bar>p_y neutral_particle\<bar> < yMax" "pT neutral_particle > pTmin_hadron"
    "charge neutral_particle = 0"
    by (simp_all add: neutral_particle_def yMax_def pTmin_hadron_def)
  have qh: "\<bar>p_y hard_particle\<bar> < yMax" "pT hard_particle > pTmin_hadron"
    "charge hard_particle = 1"
    by (simp_all add: hard_particle_def yMax_def pTmin_hadron_def)
  have d: "event_at ev_WH (daughter1 W_boson) = Some hard_particle"
    "event_at ev_WH (daughter2 W_boson) = Some neutral_particle"
    "event_at ev_WH (daughter1 H_boson) = Some hard_particle"
    "event_at ev_WH (daughter2 H_boson) = Some neutral_particle"
    by (simp_all add: event_at_def ev_WH_def W_boson_def H_boson_def)
  have a: "pythia_next env2 0 = Some ev_WH" by (simp add: env2_def)
  have m: "main env2 1 = pages0"
    by (simp add: main_def run_def Let_def pages0_def st0_def)
  have pu: "pileup_finals (pythiaPU_next env2) (pu_calls st0) (nat (Poisson env2 (rng_calls st0)))
      = [hard_particle, hard_particle]"
    by (simp add: pileup_finals_def pileup_events_def upt3 env2_def st0_def
        W_boson_def hard_particle_def)
  have "page_markers p = ?ms" if "p \<in> set pages0" for p
    using process_event_markers [OF a ev_WH_valid that [unfolded pages0_def]] q qh
    unfolding pu f by (simp add: drawParticleMarker_def)
  then have ms: "page_markers p = ?ms" if "p \<in> set pages0" for p
    using that by blast
  have "length (map page_key pages0) = Suc (Suc 0)"
    unfolding pages0_keys by simp
  then obtain p1 p2 where ps: "pages0 = [p1, p2]"
    by (auto simp: length_Suc_conv)
  have "page_markers p1 = ?ms" "page_markers p2 = ?ms"
    by (rule ms, simp add: ps)+
  then have "map page_markers pages0 = [?ms, ?ms]"
    by (simp add: ps)
  then show ?thesis using f q d pages0_keys unfolding m by (simp add: ptcls_hs_of_def)
qed

theorem markers_of_qualifying_particles_witness:
  "pythia_next env2 0 = Some ev_WH \<and> length (VH_of ev_WH) = 2 \<and> hd pages0 \<in> set pages0
   \<and> page_markers (hd pages0)
      = [ParticleMarker hard_particle 24 colPU 0.4, ParticleMarker hard_particle 24 colPU 0.4,
         ParticleMarker hard_particle 5 colPos 0.8,
         ParticleMarker neutral_particle 21 colNeut 0.4, ParticleMarker neutral_particle 5 colNeut 0.8]
   \<and> length (pu_markers neutral_particle) = 1
   \<and> length (hs_markers neutral_particle) = 2"
proof -
  have a: "pythia_next env2 0 = Some ev_WH" by (simp add: env2_def)
  have ne: "pages0 \<noteq> []" using pages0_keys by auto
  then have m: "hd pages0 \<in> set (snd (process_event env2 jetDefs st0 0))"
    by (simp add: pages0_def [symmetric])
  have pu: "pileup_finals (pythiaPU_next env2) (pu_calls st0) (nat (Poisson env2 (rng_calls st0)))
      = [hard_particle, hard_particle]"
    by (simp add: pileup_finals_def pileup_events_def upt3 env2_def st0_def
        W_boson_def hard_particle_def)
  have hs: "filter isFinal ev_WH = [hard_particle, neutral_particle]"
    by (simp add: ev_WH_def W_boson_def H_boson_def hard_particle_def neutral_particle_def)
  have q: "qualifies hard_particle" "qualifies neutral_particle"
    by (simp_all add: qualifies_def hard_particle_def neutral_particle_def yMax_def pTmin_hadron_def)
  have c: "charge hard_particle = 1" "charge neutral_particle = 0"
    by (simp_all add: hard_particle_def neutral_particle_def)
  show ?thesis
    using markers_of_qualifying_particles [OF a ev_WH_valid m, of neutral_particle] a ev_WH_valid ne
    unfolding pu hs
    by (simp add: q c pu_markers_def hs_markers_def)
qed

lemma concat_grid_length:
  "length (concat (map (\<lambda>i. map (g i) [0 ..< m]) [0 ..< n])) = n * m"
  by (induction n) simp_all

lemma concat_grid_nth:
  "i < n \<Longrightarrow> j < m \<Longrightarrow> concat (map (\<lambda>i. map (g i) [0 ..< m]) [0 ..< n]) ! (i * m + j) = g i j"
proof (induction n)
  case 0
  then show ?case by simp
next
  case (Suc n)
  let ?prev = "concat (map (\<lambda>i. map (g i) [0 ..< m]) [0 ..< n])"
  have len: "length ?prev = n * m" by (rule concat_grid_length)
  show ?case
  proof (cases "i < n")
    case True
    have "i * m + j < i * m + m" using Suc.prems(2) by simp
    also have "\<dots> = Suc i * m" by simp
    also have "\<dots> \<le> n * m" using True by (intro mult_le_mono1) simp
    finally have "i * m + j < length ?prev" using len by simp
    then show ?thesis using Suc.IH [OF True Suc.prems(2)] by (simp add: nth_append)
  next
    case False
    then have "i = n" using Suc.prems(1) by simp
    then show ?thesis using Suc.prems(2) len by (simp add: nth_append)
  qed
qed

lemma GetBinCenter_Suc:
  "GetBinCenter a (Suc i) = Xmin a + (real i + 1 / 2) * ((Xmax a - Xmin a) / real (Nbins a))"
proof -
  have "x + (real (Suc i) - 1) * w + (1 / 2) * w = x + (real i + 1 / 2) * w" for x w :: real
    by (simp add: distrib_right)
  then show ?thesis unfolding GetBinCenter_def .
qed

lemma ghosts_of_builder:
  "ghosts_of h = GhostGridBuilder (Nbins (Xaxis h)) (Xmin (Xaxis h)) (Xmax (Xaxis h))
                                  (Nbins (Yaxis h)) (Xmin (Yaxis h)) (Xmax (Yaxis h))"
proof -
  have shift: "map f [Suc 0 ..< Suc n] = map (\<lambda>i. f (Suc i)) [0 ..< n]" for f :: "nat \<Rightarrow> 'a" and n
  proof -
    have "map f [Suc 0 ..< Suc n] = map f (map Suc [0 ..< n])"
      by (simp only: map_Suc_upt)
    then show ?thesis by (simp only: map_map o_def)
  qed
  note c = GetBinCenter_Suc
  show ?thesis
    unfolding ghosts_of_def GhostGridBuilder_def One_nat_def shift reset_momentum_PtYPhiM_def c ..
qed

lemma ghosts_of_cong:
  "Xaxis h = Xaxis h' \<Longrightarrow> Yaxis h = Yaxis h' \<Longrightarrow> ghosts_of h = ghosts_of h'"
  by (simp add: ghosts_of_def)

lemma process_event_axes:
  "Xaxis (pTflow (fst (process_event env defs st i))) = Xaxis (pTflow st)
   \<and> Yaxis (pTflow (fst (process_event env defs st i))) = Yaxis (pTflow st)"
  by (simp add: process_event_def Let_def split: option.splits)

lemma process_event_page:
  assumes "p \<in> set (snd (process_event env defs st i))"
  shows "\<exists>ev. pythia_next env i = Some ev \<and> length (VH_of ev) = 2 \<and> page_event p = i
              \<and> page_input p = stbl_ptcls_of env st ev"
proof (cases "pythia_next env i")
  case None
  then show ?thesis using assms by (simp add: process_event_def)
next
  case (Some ev)
  show ?thesis
  proof (cases "length (VH_of ev) = 2")
    case True
    then show ?thesis
      using assms Some algo_loop_input [of p env _ "pTflow st" "stbl_ptcls_of env st ev" True defs]
      by (simp add: process_event_valid Let_def)
  next
    case False
    then show ?thesis using assms Some by (simp add: process_event_def)
  qed
qed

lemma event_loop_page:
  "p \<in> set (snd (event_loop env defs st is)) \<Longrightarrow>
     \<exists>st' ev. Xaxis (pTflow st') = Xaxis (pTflow st) \<and> Yaxis (pTflow st') = Yaxis (pTflow st)
        \<and> pythia_next env (page_event p) = Some ev \<and> length (VH_of ev) = 2
        \<and> page_input p = stbl_ptcls_of env st' ev"
proof (induction "is" arbitrary: st)
  case Nil
  then show ?case by simp
next
  case (Cons i "is")
  let ?st1 = "fst (process_event env defs st i)"
  from Cons.prems consider
    (here) "p \<in> set (snd (process_event env defs st i))"
    | (later) "p \<in> set (snd (event_loop env defs ?st1 is))"
    by (auto simp: Let_def)
  then show ?case
  proof cases
    case here
    then show ?thesis using process_event_page [OF here] by blast
  next
    case later
    from Cons.IH [OF later] obtain st' ev where
      "Xaxis (pTflow st') = Xaxis (pTflow ?st1)" "Yaxis (pTflow st') = Yaxis (pTflow ?st1)"
      "pythia_next env (page_event p) = Some ev" "length (VH_of ev) = 2"
      "page_input p = stbl_ptcls_of env st' ev" by blast
    then show ?thesis using process_event_axes [of env defs st i] by (intro exI [of _ st'] exI [of _ ev]) simp
  qed
qed

text \<open>
  Claim C9. The ghost probes are a function of the grid parameters alone and are the same
  for every event: on every page of a run that starts with histogram \<open>h\<close>, the particles
  given to the clustering are the final particles of the page's event, then the ghost
  list of \<open>h\<close>, then the pileup particles. That list is what the builder of the
  specification yields for the bin counts and ranges of \<open>h\<close>; it has one probe per cell,
  and the probe of cell \<open>(iy + 1, iphi + 1)\<close> sits at the centre of that cell with pT
  \<open>1e-100\<close>.
\<close>

theorem ghost_probes_fixed:
  assumes "p \<in> set (run env defs h nEvent)"
    and "iy < Nbins (Xaxis h)" "iphi < Nbins (Yaxis h)"
  shows "(\<exists>ev pu. pythia_next env (page_event p) = Some ev
            \<and> page_input p = map PseudoJet_of (filter isFinal ev) @ ghosts_of h @ pu)
       \<and> ghosts_of h = GhostGridBuilder (Nbins (Xaxis h)) (Xmin (Xaxis h)) (Xmax (Xaxis h))
                                        (Nbins (Yaxis h)) (Xmin (Yaxis h)) (Xmax (Yaxis h))
       \<and> length (ghosts_of h) = Nbins (Xaxis h) * Nbins (Yaxis h)
       \<and> ghosts_of h ! (iy * Nbins (Yaxis h) + iphi)
           = \<lparr>pt = pTghost, rap = GetBinCenter (Xaxis h) (Suc iy),
              phi_std = GetBinCenter (Yaxis h) (Suc iphi)\<rparr>"
proof -
  from assms(1) obtain st' ev where s:
    "Xaxis (pTflow st') = Xaxis h" "Yaxis (pTflow st') = Yaxis h"
    "pythia_next env (page_event p) = Some ev" "page_input p = stbl_ptcls_of env st' ev"
    unfolding run_def using event_loop_page [of p env defs _ "[0 ..< nat nEvent]"] by fastforce
  have "ghosts_of (pTflow st') = ghosts_of h" using s(1,2) by (rule ghosts_of_cong)
  then have 1: "\<exists>ev pu. pythia_next env (page_event p) = Some ev
            \<and> page_input p = map PseudoJet_of (filter isFinal ev) @ ghosts_of h @ pu"
    using s(3,4) by (auto simp: stbl_ptcls_of_def)
  note c = GetBinCenter_Suc
  have 3: "length (ghosts_of h) = Nbins (Xaxis h) * Nbins (Yaxis h)"
    unfolding ghosts_of_builder GhostGridBuilder_def by (rule concat_grid_length)
  have 4: "ghosts_of h ! (iy * Nbins (Yaxis h) + iphi)
           = \<lparr>pt = pTghost, rap = GetBinCenter (Xaxis h) (Suc iy),
              phi_std = GetBinCenter (Yaxis h) (Suc iphi)\<rparr>"
    unfolding ghosts_of_builder GhostGridBuilder_def c
    using concat_grid_nth [OF assms(2,3)] by simp
  show ?thesis using 1 3 4 ghosts_of_builder [of h] by simp
qed

theorem ghost_probes_fixed_witness:
  "last (main env2 2) \<in> set (run env2 jetDefs pTflow0 2)
   \<and> (100 :: nat) < Nbins (Xaxis pTflow0) \<and> (78 :: nat) < Nbins (Yaxis pTflow0)
   \<and> length (ghosts_of pTflow0) = 200 * 157
   \<and> ghosts_of pTflow0 ! (100 * 157 + 78) = ghost0
   \<and> ghosts_of pTflow0 = GhostGridBuilder 200 (- 4) 4 157 (- pi) pi"
proof -
  have "length (map page_key (main env2 2)) = 4"
    unfolding main_def run_def event_loop_keys
    by (simp add: upt_two env2_valid jetDefs_value)
  then have "main env2 2 \<noteq> []" by auto
  then have a: "last (main env2 2) \<in> set (run env2 jetDefs pTflow0 2)"
    unfolding main_def by simp
  have n: "Nbins (Xaxis pTflow0) = 200" "Nbins (Yaxis pTflow0) = 157"
    by (simp_all add: pTflow0_def new_TH2D_def NyBins_def NphiBins_def)
  have b: "(100 :: nat) < Nbins (Xaxis pTflow0)" "(78 :: nat) < Nbins (Yaxis pTflow0)"
    by (simp_all add: n)
  have r: "Xmin (Xaxis pTflow0) = - 4" "Xmax (Xaxis pTflow0) = 4"
    "Xmin (Yaxis pTflow0) = - pi" "Xmax (Yaxis pTflow0) = pi"
    by (simp_all add: pTflow0_def new_TH2D_def yMax_def phiMax_def)
  have c: "GetBinCenter (Xaxis pTflow0) (Suc 100) = 0.02" "GetBinCenter (Yaxis pTflow0) (Suc 78) = 0"
    by (simp_all add: GetBinCenter_def n r)
  note t = ghost_probes_fixed [OF a b, unfolded n r c]
  have l: "length (ghosts_of pTflow0) = 200 * 157"
    using t [THEN conjunct2, THEN conjunct2, THEN conjunct1] by simp
  have e: "ghosts_of pTflow0 ! (100 * 157 + 78) = ghost0"
    using t [THEN conjunct2, THEN conjunct2, THEN conjunct2]
    by (simp add: ghost0_def reset_momentum_PtYPhiM_def)
  show ?thesis
    by (intro conjI a b l e t [THEN conjunct2, THEN conjunct1])
qed

end
